theory Spec2Isabelle
  imports Main
begin

section \<open>Automated backup scheduling of ExpenseFlow (src/server.js)\<close>

text \<open>
  The development follows \<^verbatim>\<open>initializeBackupScheduling\<close> of \<^verbatim>\<open>src/server.js\<close> (lines
  206 to 295): four \<^verbatim>\<open>cron.schedule\<close> registrations, whose callbacks are three tier
  backups (daily, weekly, monthly) and one retention cleanup. The callbacks are
  \<^verbatim>\<open>async\<close> functions with one \<^verbatim>\<open>await\<close> each, so each is modelled in two halves: what
  runs when the trigger fires, up to the \<^verbatim>\<open>await\<close>, and what runs when the awaited promise
  settles. Everything a callback touches is a field of one explicit state, \<open>world\<close>.
\<close>

subsection \<open>Values\<close>

datatype tier = Daily | Weekly | Monthly

text \<open>The four callbacks handed to \<^verbatim>\<open>cron.schedule\<close>.\<close>

datatype job = Backup tier | Cleanup

text \<open>
  A JavaScript \<^verbatim>\<open>Error\<close>: the callbacks read only its \<^verbatim>\<open>message\<close>. What a promise is
  rejected with and what a call throws is taken to be such an object.
\<close>

datatype js_error = Error (message: string)

text \<open>
  What \<^verbatim>\<open>backupService.createDatabaseBackup()\<close> resolves to: the callbacks read
  \<^verbatim>\<open>result.size\<close> and \<^verbatim>\<open>result.destination\<close>.
\<close>

record backup_result =
  result_size :: nat
  result_destination :: string

text \<open>
  What \<^verbatim>\<open>backupService.applyRetentionPolicy()\<close> resolves to: the cleanup callback reads
  \<^verbatim>\<open>result.removed\<close>; the specification gives the result the two counts.
\<close>

record retention_result =
  removed :: nat
  failures :: nat

text \<open>How an awaited promise settles.\<close>

datatype 'a settled = Resolved 'a | Rejected js_error

text \<open>
  The object literal handed to \<^verbatim>\<open>backupService.logBackup\<close>. The success branch writes
  the keys \<^verbatim>\<open>type, size, status, destination\<close>, the failure branch the keys
  \<^verbatim>\<open>type, status, error\<close>; a key that a branch does not write is \<open>None\<close>.
\<close>

record backup_entry =
  entry_type :: string
  entry_size :: "nat option"
  entry_status :: string
  entry_destination :: "string option"
  entry_error :: "string option"

text \<open>An argument of \<^verbatim>\<open>console.log\<close> or \<^verbatim>\<open>console.error\<close>.\<close>

datatype js_value = Str string | Num nat | Err js_error

datatype level = LOG | ERROR

type_synonym console_line = "level \<times> js_value list"

text \<open>A task registered with \<^verbatim>\<open>cron.schedule(expression, callback, { timezone })\<close>.\<close>

record schedule_spec =
  cron_expression :: string
  task :: job
  timezone :: string

text \<open>A stored record of the backup log: the entry, when it was written, and whether the
  artifact it names has been reclaimed by retention.\<close>

record log_record =
  entry :: backup_entry
  timestamp :: nat
  reclaimed :: bool

subsection \<open>The state\<close>

text \<open>
  \<^item> \<open>console\<close>: the lines printed so far;
  \<^item> \<open>backup_log\<close>: the records of the backup log, oldest first;
  \<^item> \<open>now\<close>: the clock;
  \<^item> \<open>write_faults\<close>: the fate of the coming writes to the backup log, in order:
    \<open>None\<close> for a write that succeeds, \<open>Some m\<close> for a storage failure with message
    \<open>m\<close>; once the list is used up every write succeeds;
  \<^item> \<open>undeletable\<close>: the destinations whose deletion fails;
  \<^item> \<open>deleted\<close>: the destinations deleted so far;
  \<^item> \<open>schedules\<close>: the tasks registered with the cron library;
  \<^item> \<open>running\<close>: the tier callbacks that are suspended at their \<^verbatim>\<open>await\<close>, in the
    order in which they started.
\<close>

record world =
  console :: "console_line list"
  backup_log :: "log_record list"
  now :: nat
  write_faults :: "string option list"
  undeletable :: "string list"
  deleted :: "string list"
  schedules :: "schedule_spec list"
  running :: "tier list"

definition console_log :: "js_value list \<Rightarrow> world \<Rightarrow> world" where
  "console_log args s = s\<lparr>console := console s @ [(LOG, args)]\<rparr>"

definition console_error :: "js_value list \<Rightarrow> world \<Rightarrow> world" where
  "console_error args s = s\<lparr>console := console s @ [(ERROR, args)]\<rparr>"

subsection \<open>The backup log\<close>

text \<open>
  Modelled from the spec: \<^verbatim>\<open>backupService.logBackup\<close> (\<^verbatim>\<open>services/backupService.js\<close> is
  not among the sources). Section 4.3: \<^verbatim>\<open>append(entry)\<close> is a durable write that, on a
  storage failure, fails with \<^verbatim>\<open>LogWriteError\<close>. A write either adds one record, stamped
  with the clock and not reclaimed, or throws and adds nothing. The callbacks call it
  without \<^verbatim>\<open>await\<close>, so the failure they can observe is a synchronous throw.
\<close>

definition stamp :: "backup_entry \<Rightarrow> world \<Rightarrow> log_record" where
  "stamp e s = \<lparr>entry = e, timestamp = now s, reclaimed = False\<rparr>"

definition logBackup :: "backup_entry \<Rightarrow> world \<Rightarrow> (js_error + unit) \<times> world" where
  "logBackup e s =
     (case write_faults s of
        [] \<Rightarrow> (Inr (), s\<lparr>backup_log := backup_log s @ [stamp e s]\<rparr>)
      | None # fs \<Rightarrow>
          (Inr (), s\<lparr>backup_log := backup_log s @ [stamp e s], write_faults := fs\<rparr>)
      | Some m # fs \<Rightarrow> (Inl (Error m), s\<lparr>write_faults := fs\<rparr>))"

subsection \<open>The tier callbacks (lines 211 to 274)\<close>

text \<open>
  The source writes the three callbacks out one by one, and so does the model. Each
  \<open>_start\<close> is the callback up to \<^verbatim>\<open>await backupService.createDatabaseBackup()\<close>: it
  prints the starting line and is then suspended. Each \<open>_catch\<close> is the \<^verbatim>\<open>catch\<close>
  block. Each \<open>_resume\<close> is the rest of the \<^verbatim>\<open>try\<close> block once the export has settled:
  a rejected export enters the \<^verbatim>\<open>catch\<close> block, and so does a throw of \<^verbatim>\<open>logBackup\<close> in
  the \<^verbatim>\<open>try\<close> block. What a \<open>_resume\<close> returns is how the callback's own promise
  settles: \<open>Inr ()\<close> when the callback returns, \<open>Inl e\<close> when \<open>e\<close> is thrown out of it.
\<close>

definition daily_backup_start :: "world \<Rightarrow> world" where
  "daily_backup_start s =
     (console_log [Str ''[BACKUP] Starting daily backup...''] s)
       \<lparr>running := running s @ [Daily]\<rparr>"

definition daily_backup_catch :: "js_error \<Rightarrow> world \<Rightarrow> (js_error + unit) \<times> world" where
  "daily_backup_catch error s =
     logBackup
       \<lparr>entry_type = ''daily'', entry_size = None, entry_status = ''failed'',
        entry_destination = None, entry_error = Some (message error)\<rparr>
       (console_error [Str ''[BACKUP] Daily backup failed:'', Err error] s)"

definition daily_backup_resume ::
  "backup_result settled \<Rightarrow> world \<Rightarrow> (js_error + unit) \<times> world" where
  "daily_backup_resume outcome s0 =
     (let s = s0\<lparr>running := remove1 Daily (running s0)\<rparr> in
      case outcome of
        Rejected error \<Rightarrow> daily_backup_catch error s
      | Resolved result \<Rightarrow>
          (case logBackup
                  \<lparr>entry_type = ''daily'', entry_size = Some (result_size result),
                   entry_status = ''success'',
                   entry_destination = Some (result_destination result),
                   entry_error = None\<rparr>
                  (console_log [Str ''[BACKUP] Daily backup completed successfully''] s) of
             (Inr u, s') \<Rightarrow> (Inr u, s')
           | (Inl error, s') \<Rightarrow> daily_backup_catch error s'))"

definition weekly_backup_start :: "world \<Rightarrow> world" where
  "weekly_backup_start s =
     (console_log [Str ''[BACKUP] Starting weekly backup...''] s)
       \<lparr>running := running s @ [Weekly]\<rparr>"

definition weekly_backup_catch :: "js_error \<Rightarrow> world \<Rightarrow> (js_error + unit) \<times> world" where
  "weekly_backup_catch error s =
     logBackup
       \<lparr>entry_type = ''weekly'', entry_size = None, entry_status = ''failed'',
        entry_destination = None, entry_error = Some (message error)\<rparr>
       (console_error [Str ''[BACKUP] Weekly backup failed:'', Err error] s)"

definition weekly_backup_resume ::
  "backup_result settled \<Rightarrow> world \<Rightarrow> (js_error + unit) \<times> world" where
  "weekly_backup_resume outcome s0 =
     (let s = s0\<lparr>running := remove1 Weekly (running s0)\<rparr> in
      case outcome of
        Rejected error \<Rightarrow> weekly_backup_catch error s
      | Resolved result \<Rightarrow>
          (case logBackup
                  \<lparr>entry_type = ''weekly'', entry_size = Some (result_size result),
                   entry_status = ''success'',
                   entry_destination = Some (result_destination result),
                   entry_error = None\<rparr>
                  (console_log [Str ''[BACKUP] Weekly backup completed successfully''] s) of
             (Inr u, s') \<Rightarrow> (Inr u, s')
           | (Inl error, s') \<Rightarrow> weekly_backup_catch error s'))"

definition monthly_backup_start :: "world \<Rightarrow> world" where
  "monthly_backup_start s =
     (console_log [Str ''[BACKUP] Starting monthly backup...''] s)
       \<lparr>running := running s @ [Monthly]\<rparr>"

definition monthly_backup_catch :: "js_error \<Rightarrow> world \<Rightarrow> (js_error + unit) \<times> world" where
  "monthly_backup_catch error s =
     logBackup
       \<lparr>entry_type = ''monthly'', entry_size = None, entry_status = ''failed'',
        entry_destination = None, entry_error = Some (message error)\<rparr>
       (console_error [Str ''[BACKUP] Monthly backup failed:'', Err error] s)"

definition monthly_backup_resume ::
  "backup_result settled \<Rightarrow> world \<Rightarrow> (js_error + unit) \<times> world" where
  "monthly_backup_resume outcome s0 =
     (let s = s0\<lparr>running := remove1 Monthly (running s0)\<rparr> in
      case outcome of
        Rejected error \<Rightarrow> monthly_backup_catch error s
      | Resolved result \<Rightarrow>
          (case logBackup
                  \<lparr>entry_type = ''monthly'', entry_size = Some (result_size result),
                   entry_status = ''success'',
                   entry_destination = Some (result_destination result),
                   entry_error = None\<rparr>
                  (console_log [Str ''[BACKUP] Monthly backup completed successfully''] s) of
             (Inr u, s') \<Rightarrow> (Inr u, s')
           | (Inl error, s') \<Rightarrow> monthly_backup_catch error s'))"

text \<open>The callback of a tier, and one run of it from trigger to end with nothing in between.\<close>

fun backup_start :: "tier \<Rightarrow> world \<Rightarrow> world" where
  "backup_start Daily = daily_backup_start"
| "backup_start Weekly = weekly_backup_start"
| "backup_start Monthly = monthly_backup_start"

fun backup_resume ::
  "tier \<Rightarrow> backup_result settled \<Rightarrow> world \<Rightarrow> (js_error + unit) \<times> world" where
  "backup_resume Daily = daily_backup_resume"
| "backup_resume Weekly = weekly_backup_resume"
| "backup_resume Monthly = monthly_backup_resume"

definition backup_task ::
  "tier \<Rightarrow> backup_result settled \<Rightarrow> world \<Rightarrow> (js_error + unit) \<times> world" where
  "backup_task t outcome s = backup_resume t outcome (backup_start t s)"

text \<open>The name a tier's entries carry.\<close>

fun tier_name :: "tier \<Rightarrow> string" where
  "tier_name Daily = ''daily''"
| "tier_name Weekly = ''weekly''"
| "tier_name Monthly = ''monthly''"

subsection \<open>Retention\<close>

text \<open>
  Modelled from the spec: \<^verbatim>\<open>backupService.applyRetentionPolicy\<close>, the storage-delete
  capability and \<^verbatim>\<open>markReclaimed\<close> (\<^verbatim>\<open>services/backupService.js\<close> is not among the
  sources; the source only calls \<^verbatim>\<open>applyRetentionPolicy()\<close> and reads
  \<^verbatim>\<open>result.removed\<close>). Sections 3 and 4.4: Daily keeps the most recent 7 successful
  artifacts, Weekly the most recent 4, Monthly all. Per tier with keep count \<open>N\<close>: select
  the Success, non-reclaimed entries of the tier, most recent first; keep the first \<open>N\<close>;
  request the deletion of every further one; on a successful deletion mark the entry
  reclaimed, on a failed one leave it and count the failure. The result is
  \<^verbatim>\<open>{removed, failures}\<close>; a deletion error is counted, not thrown.
\<close>

fun keepCount :: "tier \<Rightarrow> nat option" where
  "keepCount Daily = Some 7"
| "keepCount Weekly = Some 4"
| "keepCount Monthly = None"

definition eligible :: "tier \<Rightarrow> log_record \<Rightarrow> bool" where
  "eligible t r =
     (entry_status (entry r) = ''success'' \<and> \<not> reclaimed r \<and>
      entry_type (entry r) = tier_name t)"

text \<open>The selected records with their positions in the log, most recent first.\<close>

definition selected :: "tier \<Rightarrow> log_record list \<Rightarrow> (nat \<times> log_record) list" where
  "selected t lg =
     rev (sort_key (\<lambda>p. timestamp (snd p))
            (filter (\<lambda>p. eligible t (snd p)) (enumerate 0 lg)))"

definition candidates :: "tier \<Rightarrow> log_record list \<Rightarrow> (nat \<times> log_record) list" where
  "candidates t lg =
     (case keepCount t of None \<Rightarrow> [] | Some n \<Rightarrow> drop n (selected t lg))"

text \<open>\<^verbatim>\<open>deleteArtifact(destination) -> ok | error\<close>: \<open>True\<close> is ok.\<close>

definition deleteArtifact :: "string \<Rightarrow> world \<Rightarrow> bool \<times> world" where
  "deleteArtifact d s =
     (if d \<in> set (undeletable s) then (False, s)
      else (True, s\<lparr>deleted := deleted s @ [d]\<rparr>))"

definition markReclaimed :: "nat \<Rightarrow> world \<Rightarrow> world" where
  "markReclaimed i s =
     (if i < length (backup_log s)
      then s\<lparr>backup_log := (backup_log s)[i := (backup_log s ! i)\<lparr>reclaimed := True\<rparr>]\<rparr>
      else s)"

text \<open>
  The loop over the candidates. A candidate without a destination gives the delete
  capability nothing to delete and is counted as a failure.
\<close>

fun sweep_candidates ::
  "(nat \<times> log_record) list \<Rightarrow> retention_result \<Rightarrow> world \<Rightarrow> retention_result \<times> world" where
  "sweep_candidates [] r s = (r, s)"
| "sweep_candidates ((i, c) # cs) r s =
     (case entry_destination (entry c) of
        None \<Rightarrow> sweep_candidates cs (r\<lparr>failures := failures r + 1\<rparr>) s
      | Some d \<Rightarrow>
          (case deleteArtifact d s of
             (True, s') \<Rightarrow>
               sweep_candidates cs (r\<lparr>removed := removed r + 1\<rparr>) (markReclaimed i s')
           | (False, s') \<Rightarrow>
               sweep_candidates cs (r\<lparr>failures := failures r + 1\<rparr>) s'))"

definition sweep_tier :: "tier \<Rightarrow> world \<Rightarrow> retention_result \<times> world" where
  "sweep_tier t s =
     sweep_candidates (candidates t (backup_log s)) \<lparr>removed = 0, failures = 0\<rparr> s"

definition applyRetentionPolicy :: "world \<Rightarrow> retention_result settled \<times> world" where
  "applyRetentionPolicy s =
     (let (rd, sd) = sweep_tier Daily s;
          (rw, sw) = sweep_tier Weekly sd;
          (rm, sm) = sweep_tier Monthly sw
      in (Resolved \<lparr>removed = removed rd + removed rw + removed rm,
                    failures = failures rd + failures rw + failures rm\<rparr>, sm))"

subsection \<open>The cleanup callback (lines 277 to 285)\<close>

definition cleanup_start :: "world \<Rightarrow> world" where
  "cleanup_start s = console_log [Str ''[BACKUP] Running retention policy cleanup...''] s"

definition cleanup_resume ::
  "retention_result settled \<Rightarrow> world \<Rightarrow> (js_error + unit) \<times> world" where
  "cleanup_resume outcome s =
     (case outcome of
        Resolved result \<Rightarrow>
          (Inr (), console_log [Str ''[BACKUP] Retention policy applied. Removed:'',
                                Num (removed result)] s)
      | Rejected error \<Rightarrow>
          (Inr (), console_error [Str ''[BACKUP] Retention policy failed:'', Err error] s))"

text \<open>One run of the cleanup callback; the sweep it awaits runs in one piece.\<close>

definition cleanup_task :: "world \<Rightarrow> (js_error + unit) \<times> world" where
  "cleanup_task s =
     (let (outcome, s') = applyRetentionPolicy (cleanup_start s)
      in cleanup_resume outcome s')"

subsection \<open>Registration (lines 206 to 295)\<close>

text \<open>
  \<^verbatim>\<open>cron.schedule\<close> belongs to the package node-cron, which is not part of the
  repository. Its check of the pattern is a parameter, \<open>validate\<close>: \<open>None\<close> when the
  pattern is accepted, \<open>Some e\<close> when the call throws \<open>e\<close>. An accepted pattern is
  registered with its callback and time zone.
\<close>

definition cron_schedule ::
  "(string \<Rightarrow> js_error option) \<Rightarrow> string \<Rightarrow> job \<Rightarrow> string \<Rightarrow> world \<Rightarrow>
   (js_error + unit) \<times> world" where
  "cron_schedule validate expression callback tz s =
     (case validate expression of
        Some e \<Rightarrow> (Inl e, s)
      | None \<Rightarrow>
          (Inr (), s\<lparr>schedules := schedules s @
             [\<lparr>cron_expression = expression, task = callback, timezone = tz\<rparr>]\<rparr>))"

text \<open>The \<^verbatim>\<open>catch\<close> block of \<^verbatim>\<open>initializeBackupScheduling\<close> (lines 292 to 294).\<close>

definition initialize_catch :: "js_error \<Rightarrow> world \<Rightarrow> (js_error + unit) \<times> world" where
  "initialize_catch error s =
     (Inr (), console_error [Str ''Failed to initialize backup scheduling:'', Err error] s)"

text \<open>The closing lines 287 to 291; the first starts with the seven bytes the source
  file has there.\<close>

definition initialize_report :: "world \<Rightarrow> world" where
  "initialize_report s =
     console_log [Str ''  - Cleanup: Daily 5:00 AM UTC'']
       (console_log [Str ''  - Monthly backups: 1st of month 4:00 AM UTC'']
         (console_log [Str ''  - Weekly backups: Sundays 3:00 AM UTC'']
           (console_log [Str ''  - Daily backups: 2:00 AM UTC'']
             (console_log
                [Str ([CHR 0xC3, CHR 0xA2, CHR 0xC5, CHR 0x93, CHR 0xE2, CHR 0x80, CHR 0x9C]
                      @ '' Backup scheduling initialized successfully'')] s))))"

definition initializeBackupScheduling ::
  "(string \<Rightarrow> js_error option) \<Rightarrow> world \<Rightarrow> (js_error + unit) \<times> world" where
  "initializeBackupScheduling validate s =
     (case cron_schedule validate ''0 2 * * *'' (Backup Daily) ''UTC''
             (console_log [Str ''Initializing automated backup scheduling...''] s) of
        (Inl error, s1) \<Rightarrow> initialize_catch error s1
      | (Inr _, s1) \<Rightarrow>
     (case cron_schedule validate ''0 3 * * 0'' (Backup Weekly) ''UTC'' s1 of
        (Inl error, s2) \<Rightarrow> initialize_catch error s2
      | (Inr _, s2) \<Rightarrow>
     (case cron_schedule validate ''0 4 1 * *'' (Backup Monthly) ''UTC'' s2 of
        (Inl error, s3) \<Rightarrow> initialize_catch error s3
      | (Inr _, s3) \<Rightarrow>
     (case cron_schedule validate ''0 5 * * *'' Cleanup ''UTC'' s3 of
        (Inl error, s4) \<Rightarrow> initialize_catch error s4
      | (Inr _, s4) \<Rightarrow> (Inr (), initialize_report s4)))))"

subsection \<open>Patterns\<close>

text \<open>
  The pattern format of node-cron, as the package documents it, for the two forms of
  field the source uses: five fields separated by single spaces, in the order minute, hour,
  day of month, month, day of week (0 is Sunday); a field is \<^verbatim>\<open>*\<close>, which every value
  matches, or a decimal number, which that value matches.
\<close>

record cron_time =
  minute :: nat
  hour :: nat
  day_of_month :: nat
  month :: nat
  day_of_week :: nat

fun fields :: "string \<Rightarrow> string list" where
  "fields [] = [[]]"
| "fields (c # cs) =
     (if c = CHR '' '' then [] # fields cs
      else (case fields cs of [] \<Rightarrow> [[c]] | w # ws \<Rightarrow> (c # w) # ws))"

fun decimal :: "nat \<Rightarrow> string \<Rightarrow> nat option" where
  "decimal acc [] = Some acc"
| "decimal acc (c # cs) =
     (if c \<in> set ''0123456789''
      then decimal (10 * acc + (of_char c - of_char CHR ''0'')) cs
      else None)"

definition field_matches :: "string \<Rightarrow> nat \<Rightarrow> bool" where
  "field_matches f v = (f = ''*'' \<or> (f \<noteq> [] \<and> decimal 0 f = Some v))"

definition cron_matches :: "string \<Rightarrow> cron_time \<Rightarrow> bool" where
  "cron_matches expression t =
     (case fields expression of
        [mi, h, dm, mo, dw] \<Rightarrow>
          field_matches mi (minute t) \<and> field_matches h (hour t) \<and>
          field_matches dm (day_of_month t) \<and> field_matches mo (month t) \<and>
          field_matches dw (day_of_week t)
      | _ \<Rightarrow> False)"

subsection \<open>The event loop\<close>

text \<open>
  What can happen to the process once the schedules are registered: a trigger fires and
  the library calls the callback, which runs up to its \<^verbatim>\<open>await\<close>; the export awaited by a
  suspended tier callback settles and the callback runs to its end; the clock advances.
  The source passes \<^verbatim>\<open>cron.schedule\<close> only the time zone, and no callback looks at
  \<open>running\<close>: a firing always starts the callback.
\<close>

datatype event = Fire job | Settle tier "backup_result settled" | Tick

fun fire :: "job \<Rightarrow> world \<Rightarrow> world" where
  "fire (Backup t) s = backup_start t s"
| "fire Cleanup s = snd (cleanup_task s)"

fun step :: "event \<Rightarrow> world \<Rightarrow> world" where
  "step (Fire j) s = fire j s"
| "step (Settle t outcome) s =
     (if t \<in> set (running s) then snd (backup_resume t outcome s) else s)"
| "step Tick s = s\<lparr>now := now s + 1\<rparr>"

fun run :: "event list \<Rightarrow> world \<Rightarrow> world" where
  "run [] s = s"
| "run (e # es) s = run es (step e s)"

text \<open>The process before anything has happened.\<close>

definition process_start :: world where
  "process_start =
     \<lparr>console = [], backup_log = [], now = 0, write_faults = [], undeletable = [],
      deleted = [], schedules = [], running = []\<rparr>"

subsection \<open>Vocabulary of the statements\<close>

text \<open>
  The three callbacks differ in the tier's name, written in lower case in the entries and
  in the starting line and capitalised in the two other console lines. The definitions
  below say once what the three copies say each for its tier; the lemmas
  \<open>backup_start_eq\<close>, \<open>backup_resume_Rejected\<close> and \<open>backup_resume_Resolved\<close> prove
  that they do.
\<close>

fun tier_label :: "tier \<Rightarrow> string" where
  "tier_label Daily = ''Daily''"
| "tier_label Weekly = ''Weekly''"
| "tier_label Monthly = ''Monthly''"

definition failed_entry :: "tier \<Rightarrow> string \<Rightarrow> backup_entry" where
  "failed_entry t m =
     \<lparr>entry_type = tier_name t, entry_size = None, entry_status = ''failed'',
      entry_destination = None, entry_error = Some m\<rparr>"

definition success_entry :: "tier \<Rightarrow> backup_result \<Rightarrow> backup_entry" where
  "success_entry t r =
     \<lparr>entry_type = tier_name t, entry_size = Some (result_size r), entry_status = ''success'',
      entry_destination = Some (result_destination r), entry_error = None\<rparr>"

definition backup_catch :: "tier \<Rightarrow> js_error \<Rightarrow> world \<Rightarrow> (js_error + unit) \<times> world" where
  "backup_catch t error s =
     logBackup (failed_entry t (message error))
       (console_error [Str (''[BACKUP] '' @ tier_label t @ '' backup failed:''), Err error] s)"

text \<open>The coming write to the backup log does not fail.\<close>

definition next_write_succeeds :: "world \<Rightarrow> bool" where
  "next_write_succeeds s = (case write_faults s of [] \<Rightarrow> True | f # _ \<Rightarrow> f = None)"

text \<open>
  Vocabulary of the statements about retention. \<open>deletion_fails s q\<close>: the deletion of
  candidate \<open>q\<close> fails in state \<open>s\<close>. \<open>successfulCount t lg\<close>: the number of Success,
  non-reclaimed entries of tier \<open>t\<close> in the log, the entries retention selects.
  \<open>policy_candidates lg\<close>: the candidates of one sweep over all tiers, in the order in which
  the sweep handles them.
\<close>

definition deletion_fails :: "world \<Rightarrow> nat \<times> log_record \<Rightarrow> bool" where
  "deletion_fails s q =
     (case entry_destination (entry (snd q)) of None \<Rightarrow> True | Some d \<Rightarrow> d \<in> set (undeletable s))"


definition policy_candidates :: "log_record list \<Rightarrow> (nat \<times> log_record) list" where
  "policy_candidates lg = candidates Daily lg @ candidates Weekly lg @ candidates Monthly lg"




text \<open>
  Vocabulary of the statements about registration: the four registrations of
  \<^verbatim>\<open>initializeBackupScheduling\<close> in their order, a registration the library accepts, and
  a library that accepts every pattern.
\<close>

definition backup_schedules :: "schedule_spec list" where
  "backup_schedules =
     [\<lparr>cron_expression = ''0 2 * * *'', task = Backup Daily, timezone = ''UTC''\<rparr>,
      \<lparr>cron_expression = ''0 3 * * 0'', task = Backup Weekly, timezone = ''UTC''\<rparr>,
      \<lparr>cron_expression = ''0 4 1 * *'', task = Backup Monthly, timezone = ''UTC''\<rparr>,
      \<lparr>cron_expression = ''0 5 * * *'', task = Cleanup, timezone = ''UTC''\<rparr>]"

definition accepted :: "(string \<Rightarrow> js_error option) \<Rightarrow> schedule_spec \<Rightarrow> bool" where
  "accepted validate sp = (validate (cron_expression sp) = None)"

definition accepting :: "string \<Rightarrow> js_error option" where
  "accepting x = None"

text \<open>
  A sample state: a log of seven successful weekly backups and one monthly backup, in the
  order of their time stamps, and a storage that refuses to delete the artifact \<^verbatim>\<open>w2\<close>.
\<close>

definition success_record :: "tier \<Rightarrow> nat \<Rightarrow> string \<Rightarrow> log_record" where
  "success_record t ts d =
     \<lparr>entry = \<lparr>entry_type = tier_name t, entry_size = Some 1, entry_status = ''success'',
                entry_destination = Some d, entry_error = None\<rparr>,
      timestamp = ts, reclaimed = False\<rparr>"

definition retention_sample :: world where
  "retention_sample = process_start
     \<lparr>backup_log := [success_record Weekly 1 ''w1'', success_record Weekly 2 ''w2'',
                     success_record Weekly 3 ''w3'', success_record Weekly 4 ''w4'',
                     success_record Weekly 5 ''w5'', success_record Weekly 6 ''w6'',
                     success_record Weekly 7 ''w7'', success_record Monthly 8 ''m1''],
      undeletable := [''w2'']\<rparr>"

section \<open>Properties\<close>

subsection \<open>The console and the log leave the rest of the state alone\<close>

lemma console_frame [simp]:
  "write_faults (console_log a s) = write_faults s"
  "write_faults (console_error a s) = write_faults s"
  "backup_log (console_log a s) = backup_log s"
  "backup_log (console_error a s) = backup_log s"
  "schedules (console_log a s) = schedules s"
  "schedules (console_error a s) = schedules s"
  "running (console_log a s) = running s"
  "running (console_error a s) = running s"
  "now (console_log a s) = now s"
  "now (console_error a s) = now s"
  "deleted (console_log a s) = deleted s"
  "deleted (console_error a s) = deleted s"
  "undeletable (console_log a s) = undeletable s"
  "undeletable (console_error a s) = undeletable s"
  "console (console_log a s) = console s @ [(LOG, a)]"
  "console (console_error a s) = console s @ [(ERROR, a)]"
  by (simp_all add: console_log_def console_error_def)

lemma next_write_frame [simp]:
  "next_write_succeeds (console_log a s) = next_write_succeeds s"
  "next_write_succeeds (console_error a s) = next_write_succeeds s"
  "next_write_succeeds (s\<lparr>running := r\<rparr>) = next_write_succeeds s"
  by (simp_all add: next_write_succeeds_def)

lemma stamp_frame [simp]:
  "stamp e (console_log a s) = stamp e s"
  "stamp e (console_error a s) = stamp e s"
  "stamp e (s\<lparr>running := r\<rparr>) = stamp e s"
  "stamp e (s\<lparr>write_faults := w\<rparr>) = stamp e s"
  by (simp_all add: stamp_def)

lemma logBackup_ok:
  "next_write_succeeds s \<Longrightarrow>
   logBackup e s = (Inr (), s\<lparr>backup_log := backup_log s @ [stamp e s],
                               write_faults := tl (write_faults s)\<rparr>)"
  by (auto simp: logBackup_def next_write_succeeds_def split: list.splits option.splits)

lemma logBackup_fault:
  "write_faults s = Some m # fs \<Longrightarrow> logBackup e s = (Inl (Error m), s\<lparr>write_faults := fs\<rparr>)"
  by (simp add: logBackup_def)

lemma next_write_cases:
  "next_write_succeeds s \<or> (\<exists>m fs. write_faults s = Some m # fs)"
  by (auto simp: next_write_succeeds_def split: list.splits option.splits)

lemma logBackup_frame [simp]:
  "console (snd (logBackup e s)) = console s"
  "schedules (snd (logBackup e s)) = schedules s"
  "running (snd (logBackup e s)) = running s"
  "now (snd (logBackup e s)) = now s"
  "deleted (snd (logBackup e s)) = deleted s"
  "undeletable (snd (logBackup e s)) = undeletable s"
  by (auto simp: logBackup_def split: list.splits option.splits)

subsection \<open>The three callbacks are one callback, tier by tier\<close>

lemma backup_start_eq:
  "backup_start t s =
     (console_log [Str (''[BACKUP] Starting '' @ tier_name t @ '' backup...'')] s)
       \<lparr>running := running s @ [t]\<rparr>"
  by (cases t) (simp_all add: daily_backup_start_def weekly_backup_start_def
      monthly_backup_start_def)

lemma backup_resume_Rejected:
  "backup_resume t (Rejected error) s =
     backup_catch t error (s\<lparr>running := remove1 t (running s)\<rparr>)"
  by (cases t) (simp_all add: daily_backup_resume_def weekly_backup_resume_def
      monthly_backup_resume_def daily_backup_catch_def weekly_backup_catch_def
      monthly_backup_catch_def backup_catch_def failed_entry_def)

lemma backup_resume_Resolved:
  "backup_resume t (Resolved result) s =
     (case logBackup (success_entry t result)
             (console_log [Str (''[BACKUP] '' @ tier_label t @ '' backup completed successfully'')]
                (s\<lparr>running := remove1 t (running s)\<rparr>)) of
        (Inr u, s') \<Rightarrow> (Inr u, s')
      | (Inl error, s') \<Rightarrow> backup_catch t error s')"
  by (cases t) (simp_all add: daily_backup_resume_def weekly_backup_resume_def
      monthly_backup_resume_def daily_backup_catch_def weekly_backup_catch_def
      monthly_backup_catch_def backup_catch_def failed_entry_def success_entry_def
      split: prod.splits sum.splits)

lemma backup_catch_ok:
  assumes "next_write_succeeds s"
  shows "fst (backup_catch t e s) = Inr ()"
    and "backup_log (snd (backup_catch t e s)) =
           backup_log s @ [stamp (failed_entry t (message e)) s]"
  using assms by (simp_all add: backup_catch_def logBackup_ok)

lemma backup_catch_fault:
  assumes "write_faults s = Some m # fs"
  shows "fst (backup_catch t e s) = Inl (Error m)"
    and "backup_log (snd (backup_catch t e s)) = backup_log s"
    and "write_faults (snd (backup_catch t e s)) = fs"
  using assms by (simp_all add: backup_catch_def logBackup_fault)

lemma backup_catch_frame [simp]:
  "schedules (snd (backup_catch t e s)) = schedules s"
  "running (snd (backup_catch t e s)) = running s"
  "now (snd (backup_catch t e s)) = now s"
  "deleted (snd (backup_catch t e s)) = deleted s"
  by (simp_all add: backup_catch_def logBackup_def split: list.splits option.splits)

lemma backup_catch_console:
  "console (snd (backup_catch t e s)) =
     console s @ [(ERROR, [Str (''[BACKUP] '' @ tier_label t @ '' backup failed:''), Err e])]"
  by (simp add: backup_catch_def)

lemma backup_resume_Resolved_ok:
  assumes "next_write_succeeds s"
  shows "fst (backup_resume t (Resolved r) s) = Inr ()"
    and "backup_log (snd (backup_resume t (Resolved r) s)) =
           backup_log s @ [stamp (success_entry t r) s]"
  using assms by (simp_all add: backup_resume_Resolved logBackup_ok)

lemma backup_resume_Resolved_fault:
  assumes "write_faults s = Some m # fs"
  shows "backup_resume t (Resolved r) s =
           backup_catch t (Error m)
             ((console_log [Str (''[BACKUP] '' @ tier_label t @ '' backup completed successfully'')]
                (s\<lparr>running := remove1 t (running s)\<rparr>))\<lparr>write_faults := fs\<rparr>)"
  using assms by (simp add: backup_resume_Resolved logBackup_fault)

lemma backup_resume_frame [simp]:
  "schedules (snd (backup_resume t outcome s)) = schedules s"
  "now (snd (backup_resume t outcome s)) = now s"
  "deleted (snd (backup_resume t outcome s)) = deleted s"
  "running (snd (backup_resume t outcome s)) = remove1 t (running s)"
  by (cases outcome; simp add: backup_resume_Resolved backup_resume_Rejected logBackup_def
        split: list.splits option.splits)+

lemma backup_start_frame [simp]:
  "schedules (backup_start t s) = schedules s"
  "backup_log (backup_start t s) = backup_log s"
  "write_faults (backup_start t s) = write_faults s"
  "now (backup_start t s) = now s"
  "deleted (backup_start t s) = deleted s"
  "running (backup_start t s) = running s @ [t]"
  "next_write_succeeds (backup_start t s) = next_write_succeeds s"
  "stamp e (backup_start t s) = stamp e s"
  by (simp_all add: backup_start_eq next_write_succeeds_def stamp_def)

text \<open>What a resumed callback does to the log: it adds one record of its tier and
  returns, or it adds nothing and ends with an error.\<close>

lemma backup_resume_log:
  "(fst (backup_resume t outcome s) = Inr () \<and>
      (\<exists>e. backup_log (snd (backup_resume t outcome s)) = backup_log s @ [stamp e s] \<and>
           entry_type e = tier_name t))
   \<or> ((\<exists>err. fst (backup_resume t outcome s) = Inl err) \<and>
       backup_log (snd (backup_resume t outcome s)) = backup_log s)"
proof (cases outcome)
  case (Rejected e)
  show ?thesis
    using next_write_cases [of "s\<lparr>running := remove1 t (running s)\<rparr>"]
    by (auto simp: Rejected backup_resume_Rejected backup_catch_ok backup_catch_fault
        failed_entry_def)
next
  case (Resolved r)
  show ?thesis
  proof (cases "next_write_succeeds s")
    case True
    then show ?thesis
      by (auto simp: Resolved backup_resume_Resolved_ok success_entry_def)
  next
    case False
    then obtain m fs where f: "write_faults s = Some m # fs"
      using next_write_cases [of s] by auto
    define s1 where "s1 =
      (console_log [Str (''[BACKUP] '' @ tier_label t @ '' backup completed successfully'')]
         (s\<lparr>running := remove1 t (running s)\<rparr>))\<lparr>write_faults := fs\<rparr>"
    have r: "backup_resume t (Resolved r) s = backup_catch t (Error m) s1"
      unfolding s1_def by (rule backup_resume_Resolved_fault [OF f])
    have "backup_log s1 = backup_log s" and "stamp e s1 = stamp e s" for e
      by (simp_all add: s1_def)
    then show ?thesis
      using next_write_cases [of s1]
      by (auto simp: Resolved r backup_catch_ok backup_catch_fault failed_entry_def)
  qed
qed

subsection \<open>The retention loop\<close>

lemma deleteArtifact_frame [simp]:
  "backup_log (snd (deleteArtifact d s)) = backup_log s"
  "undeletable (snd (deleteArtifact d s)) = undeletable s"
  "console (snd (deleteArtifact d s)) = console s"
  "schedules (snd (deleteArtifact d s)) = schedules s"
  "running (snd (deleteArtifact d s)) = running s"
  "now (snd (deleteArtifact d s)) = now s"
  "write_faults (snd (deleteArtifact d s)) = write_faults s"
  by (simp_all add: deleteArtifact_def)

lemma markReclaimed_frame [simp]:
  "undeletable (markReclaimed i s) = undeletable s"
  "console (markReclaimed i s) = console s"
  "schedules (markReclaimed i s) = schedules s"
  "running (markReclaimed i s) = running s"
  "now (markReclaimed i s) = now s"
  "write_faults (markReclaimed i s) = write_faults s"
  "deleted (markReclaimed i s) = deleted s"
  "length (backup_log (markReclaimed i s)) = length (backup_log s)"
  by (simp_all add: markReclaimed_def)

lemma markReclaimed_nth:
  "j < length (backup_log s) \<Longrightarrow>
   backup_log (markReclaimed i s) ! j =
     (if j = i then (backup_log s ! j)\<lparr>reclaimed := True\<rparr> else backup_log s ! j)"
  by (simp add: markReclaimed_def nth_list_update)

lemma deletion_fails_frame [simp]:
  "deletion_fails (markReclaimed i s) q = deletion_fails s q"
  "deletion_fails (snd (deleteArtifact d s)) q = deletion_fails s q"
  "deletion_fails (s\<lparr>deleted := ds\<rparr>) q = deletion_fails s q"
  by (simp_all add: deletion_fails_def split: option.splits)

lemma sweep_candidates_frame:
  "undeletable (snd (sweep_candidates cs r s)) = undeletable s \<and>
   console (snd (sweep_candidates cs r s)) = console s \<and>
   schedules (snd (sweep_candidates cs r s)) = schedules s \<and>
   running (snd (sweep_candidates cs r s)) = running s \<and>
   now (snd (sweep_candidates cs r s)) = now s \<and>
   write_faults (snd (sweep_candidates cs r s)) = write_faults s \<and>
   length (backup_log (snd (sweep_candidates cs r s))) = length (backup_log s)"
proof (induction cs r s rule: sweep_candidates.induct)
  case (1 r s)
  show ?case by simp
next
  case (2 i c cs r s)
  show ?case
  proof (cases "entry_destination (entry c)")
    case None
    with 2(1) show ?thesis by simp
  next
    case (Some d)
    show ?thesis
    proof (cases "d \<in> set (undeletable s)")
      case True
      then have "deleteArtifact d s = (False, s)" by (simp add: deleteArtifact_def)
      with 2(3) [OF Some, of False s] Some show ?thesis by simp
    next
      case False
      then have d: "deleteArtifact d s = (True, s\<lparr>deleted := deleted s @ [d]\<rparr>)"
        by (simp add: deleteArtifact_def)
      with 2(2) [OF Some, of True "s\<lparr>deleted := deleted s @ [d]\<rparr>"] Some show ?thesis by simp
    qed
  qed
qed

lemma sweep_candidates_counts:
  "fst (sweep_candidates cs r s) =
     \<lparr>removed = removed r + length (filter (\<lambda>q. \<not> deletion_fails s q) cs),
      failures = failures r + length (filter (deletion_fails s) cs)\<rparr>"
proof (induction cs r s rule: sweep_candidates.induct)
  case (1 r s)
  show ?case by simp
next
  case (2 i c cs r s)
  show ?case
  proof (cases "entry_destination (entry c)")
    case None
    with 2(1) show ?thesis by (simp add: deletion_fails_def)
  next
    case (Some d)
    show ?thesis
    proof (cases "d \<in> set (undeletable s)")
      case True
      then have "deleteArtifact d s = (False, s)" by (simp add: deleteArtifact_def)
      with 2(3) [OF Some, of False s] Some True show ?thesis by (simp add: deletion_fails_def)
    next
      case False
      then have d: "deleteArtifact d s = (True, s\<lparr>deleted := deleted s @ [d]\<rparr>)"
        by (simp add: deleteArtifact_def)
      have "deletion_fails (markReclaimed i (s\<lparr>deleted := deleted s @ [d]\<rparr>)) = deletion_fails s"
        by (rule ext) (simp add: deletion_fails_def split: option.splits)
      with 2(2) [OF Some, of True "s\<lparr>deleted := deleted s @ [d]\<rparr>"] Some False d show ?thesis
        by (simp add: deletion_fails_def)
    qed
  qed
qed


lemma sweep_candidates_log:
  "j < length (backup_log s) \<Longrightarrow>
   backup_log (snd (sweep_candidates cs r s)) ! j =
     (if j \<in> fst ` set (filter (\<lambda>q. \<not> deletion_fails s q) cs)
      then (backup_log s ! j)\<lparr>reclaimed := True\<rparr> else backup_log s ! j)"
proof (induction cs r s rule: sweep_candidates.induct)
  case (1 r s)
  show ?case by simp
next
  case (2 i c cs r s)
  show ?case
  proof (cases "entry_destination (entry c)")
    case None
    with 2(1) 2(4) show ?thesis by (simp add: deletion_fails_def)
  next
    case (Some d)
    show ?thesis
    proof (cases "d \<in> set (undeletable s)")
      case True
      then have "deleteArtifact d s = (False, s)" by (simp add: deleteArtifact_def)
      with 2(3) [OF Some, of False s] 2(4) Some True show ?thesis
        by (simp add: deletion_fails_def)
    next
      case False
      define s2 where "s2 = markReclaimed i (s\<lparr>deleted := deleted s @ [d]\<rparr>)"
      have d: "deleteArtifact d s = (True, s\<lparr>deleted := deleted s @ [d]\<rparr>)"
        using False by (simp add: deleteArtifact_def)
      have df: "deletion_fails s2 = deletion_fails s"
        by (rule ext) (simp add: s2_def deletion_fails_def split: option.splits)
      have nf: "\<not> deletion_fails s (i, c)"
        using Some False by (simp add: deletion_fails_def)
      have len: "j < length (backup_log s2)"
        using 2(4) by (simp add: s2_def)
      have nth2: "backup_log s2 ! j =
          (if j = i then (backup_log s ! j)\<lparr>reclaimed := True\<rparr> else backup_log s ! j)"
        using 2(4) markReclaimed_nth [of j "s\<lparr>deleted := deleted s @ [d]\<rparr>" i]
        by (simp add: s2_def)
      have step: "sweep_candidates ((i, c) # cs) r s =
                    sweep_candidates cs (r\<lparr>removed := removed r + 1\<rparr>) s2"
        using Some d by (simp add: s2_def)
      have ih: "backup_log (snd (sweep_candidates cs (r\<lparr>removed := removed r + 1\<rparr>) s2)) ! j =
          (if j \<in> fst ` set (filter (\<lambda>q. \<not> deletion_fails s q) cs)
           then (backup_log s2 ! j)\<lparr>reclaimed := True\<rparr> else backup_log s2 ! j)"
        using 2(2) [OF Some, of True "s\<lparr>deleted := deleted s @ [d]\<rparr>"] d len
        by (simp add: s2_def)
      show ?thesis
        unfolding step ih nth2 using nf by auto
    qed
  qed
qed

lemma sweep_candidates_deleted:
  "deleted (snd (sweep_candidates cs r s)) =
     deleted s @ map (\<lambda>q. the (entry_destination (entry (snd q))))
                    (filter (\<lambda>q. \<not> deletion_fails s q) cs)"
proof (induction cs r s rule: sweep_candidates.induct)
  case (1 r s)
  show ?case by simp
next
  case (2 i c cs r s)
  show ?case
  proof (cases "entry_destination (entry c)")
    case None
    with 2(1) show ?thesis by (simp add: deletion_fails_def)
  next
    case (Some d)
    show ?thesis
    proof (cases "d \<in> set (undeletable s)")
      case True
      then have "deleteArtifact d s = (False, s)" by (simp add: deleteArtifact_def)
      with 2(3) [OF Some, of False s] Some True show ?thesis
        by (simp add: deletion_fails_def)
    next
      case False
      have d: "deleteArtifact d s = (True, s\<lparr>deleted := deleted s @ [d]\<rparr>)"
        using False by (simp add: deleteArtifact_def)
      have df: "deletion_fails (markReclaimed i (s\<lparr>deleted := deleted s @ [d]\<rparr>)) = deletion_fails s"
        by (rule ext) (simp add: deletion_fails_def split: option.splits)
      show ?thesis
        using 2(2) [OF Some, of True "s\<lparr>deleted := deleted s @ [d]\<rparr>"] Some False d df
        by (simp add: deletion_fails_def)
    qed
  qed
qed

lemma sweep_candidates_entries:
  "map entry (backup_log (snd (sweep_candidates cs r s))) = map entry (backup_log s) \<and>
   map timestamp (backup_log (snd (sweep_candidates cs r s))) = map timestamp (backup_log s)"
proof -
  have len: "length (backup_log (snd (sweep_candidates cs r s))) = length (backup_log s)"
    using sweep_candidates_frame [of cs r s] by simp
  have "entry (backup_log (snd (sweep_candidates cs r s)) ! j) = entry (backup_log s ! j) \<and>
        timestamp (backup_log (snd (sweep_candidates cs r s)) ! j) = timestamp (backup_log s ! j)"
    if "j < length (backup_log s)" for j
    using sweep_candidates_log [OF that, of cs r] by simp
  then show ?thesis
    by (auto intro!: nth_equalityI simp: len)
qed

subsection \<open>The selection: eligible, distinct positions, most recent first\<close>

lemma set_selected:
  "set (selected t lg) = {p \<in> set (enumerate 0 lg). eligible t (snd p)}"
  by (simp add: selected_def)

lemma selected_elem:
  "p \<in> set (selected t lg) \<Longrightarrow>
   fst p < length lg \<and> snd p = lg ! fst p \<and> eligible t (snd p)"
  by (auto simp: set_selected in_set_enumerate_eq)






subsection \<open>One sweep over all tiers\<close>

lemma candidates_subset: "set (candidates t lg) \<subseteq> set (selected t lg)"
  by (auto simp: candidates_def split: option.splits dest: in_set_dropD)

lemma candidate_elem:
  "q \<in> set (candidates t lg) \<Longrightarrow>
   fst q < length lg \<and> snd q = lg ! fst q \<and> eligible t (snd q)"
  using candidates_subset [of t lg] selected_elem [of q t lg] by blast

lemma tier_name_inj: "tier_name t = tier_name t' \<longleftrightarrow> t = t'"
  by (cases t; cases t'; simp)

lemma enumerate_upt: "enumerate 0 lg = map (\<lambda>j. (j, lg ! j)) [0..<length lg]"
  by (rule nth_equalityI) (simp_all add: nth_enumerate_eq)

lemma selected_cong:
  assumes len: "length lg' = length lg"
    and same: "\<And>j. j < length lg \<Longrightarrow> entry_type (entry (lg ! j)) = tier_name t \<Longrightarrow> lg' ! j = lg ! j"
    and ent: "\<And>j. j < length lg \<Longrightarrow> entry (lg' ! j) = entry (lg ! j)"
  shows "selected t lg' = selected t lg"
proof -
  have el: "eligible t (lg' ! j) = eligible t (lg ! j)" if "j < length lg" for j
  proof (cases "entry_type (entry (lg ! j)) = tier_name t")
    case True
    then show ?thesis using same [OF that] by simp
  next
    case False
    then show ?thesis using ent [OF that] by (simp add: eligible_def)
  qed
  have f: "filter (\<lambda>j. eligible t (lg' ! j)) [0..<length lg] =
           filter (\<lambda>j. eligible t (lg ! j)) [0..<length lg]"
    by (rule filter_cong) (simp_all add: el)
  have m: "map (\<lambda>j. (j, lg' ! j)) (filter (\<lambda>j. eligible t (lg ! j)) [0..<length lg]) =
           map (\<lambda>j. (j, lg ! j)) (filter (\<lambda>j. eligible t (lg ! j)) [0..<length lg])"
    by (rule map_cong) (auto simp: eligible_def same)
  have "filter (\<lambda>p. eligible t (snd p)) (enumerate 0 lg') =
        filter (\<lambda>p. eligible t (snd p)) (enumerate 0 lg)"
    by (simp add: enumerate_upt len filter_map comp_def f m)
  then show ?thesis by (simp add: selected_def)
qed

lemma sweep_tier_counts:
  "fst (sweep_tier t s) =
     \<lparr>removed = length (filter (\<lambda>q. \<not> deletion_fails s q) (candidates t (backup_log s))),
      failures = length (filter (deletion_fails s) (candidates t (backup_log s)))\<rparr>"
  by (simp add: sweep_tier_def sweep_candidates_counts)

lemma sweep_tier_frame [simp]:
  "undeletable (snd (sweep_tier t s)) = undeletable s"
  "console (snd (sweep_tier t s)) = console s"
  "schedules (snd (sweep_tier t s)) = schedules s"
  "running (snd (sweep_tier t s)) = running s"
  "now (snd (sweep_tier t s)) = now s"
  "write_faults (snd (sweep_tier t s)) = write_faults s"
  "length (backup_log (snd (sweep_tier t s))) = length (backup_log s)"
  using sweep_candidates_frame [of "candidates t (backup_log s)" "\<lparr>removed = 0, failures = 0\<rparr>" s]
  by (simp_all add: sweep_tier_def)

lemma sweep_tier_log:
  "j < length (backup_log s) \<Longrightarrow>
   backup_log (snd (sweep_tier t s)) ! j =
     (if j \<in> fst ` set (filter (\<lambda>q. \<not> deletion_fails s q) (candidates t (backup_log s)))
      then (backup_log s ! j)\<lparr>reclaimed := True\<rparr> else backup_log s ! j)"
  by (simp add: sweep_tier_def sweep_candidates_log)

lemma sweep_tier_deleted:
  "deleted (snd (sweep_tier t s)) =
     deleted s @ map (\<lambda>q. the (entry_destination (entry (snd q))))
                    (filter (\<lambda>q. \<not> deletion_fails s q) (candidates t (backup_log s)))"
  by (simp add: sweep_tier_def sweep_candidates_deleted)

lemma sweep_tier_fails [simp]:
  "deletion_fails (snd (sweep_tier t s)) q = deletion_fails s q"
  by (simp add: deletion_fails_def split: option.splits)

lemma sweep_tier_fails_fun [simp]:
  "deletion_fails (snd (sweep_tier t s)) = deletion_fails s"
  by (rule ext) simp

lemma sweep_tier_Monthly: "sweep_tier Monthly s = (\<lparr>removed = 0, failures = 0\<rparr>, s)"
  by (simp add: sweep_tier_def candidates_def)

lemma candidates_after_sweep:
  assumes "t' \<noteq> t"
  shows "candidates t' (backup_log (snd (sweep_tier t s))) = candidates t' (backup_log s)"
proof -
  have "selected t' (backup_log (snd (sweep_tier t s))) = selected t' (backup_log s)"
  proof (rule selected_cong)
    show "length (backup_log (snd (sweep_tier t s))) = length (backup_log s)" by simp
  next
    fix j assume j: "j < length (backup_log s)"
      and ty: "entry_type (entry (backup_log s ! j)) = tier_name t'"
    have "j \<notin> fst ` set (candidates t (backup_log s))"
    proof
      assume "j \<in> fst ` set (candidates t (backup_log s))"
      then obtain q where "q \<in> set (candidates t (backup_log s))" and "fst q = j" by auto
      then have "eligible t (backup_log s ! j)"
        using candidate_elem [of q t "backup_log s"] by auto
      then show False
        using ty assms by (simp add: eligible_def tier_name_inj)
    qed
    then show "backup_log (snd (sweep_tier t s)) ! j = backup_log s ! j"
      using sweep_tier_log [OF j, of t] by auto
  next
    fix j assume j: "j < length (backup_log s)"
    show "entry (backup_log (snd (sweep_tier t s)) ! j) = entry (backup_log s ! j)"
      using sweep_tier_log [OF j, of t] by simp
  qed
  then show ?thesis by (simp add: candidates_def split: option.splits)
qed

lemma applyRetentionPolicy_eq:
  "applyRetentionPolicy s =
     (Resolved
        \<lparr>removed = removed (fst (sweep_tier Daily s)) +
                    removed (fst (sweep_tier Weekly (snd (sweep_tier Daily s)))),
         failures = failures (fst (sweep_tier Daily s)) +
                    failures (fst (sweep_tier Weekly (snd (sweep_tier Daily s))))\<rparr>,
      snd (sweep_tier Weekly (snd (sweep_tier Daily s))))"
  by (simp add: applyRetentionPolicy_def sweep_tier_Monthly case_prod_unfold Let_def)

lemma policy_result:
  "fst (applyRetentionPolicy s) =
     Resolved
       \<lparr>removed = length (filter (\<lambda>q. \<not> deletion_fails s q) (policy_candidates (backup_log s))),
        failures = length (filter (deletion_fails s) (policy_candidates (backup_log s)))\<rparr>"
  by (simp add: applyRetentionPolicy_eq sweep_tier_counts candidates_after_sweep
      policy_candidates_def candidates_def [of Monthly])

lemma policy_frame [simp]:
  "undeletable (snd (applyRetentionPolicy s)) = undeletable s"
  "console (snd (applyRetentionPolicy s)) = console s"
  "schedules (snd (applyRetentionPolicy s)) = schedules s"
  "running (snd (applyRetentionPolicy s)) = running s"
  "now (snd (applyRetentionPolicy s)) = now s"
  "write_faults (snd (applyRetentionPolicy s)) = write_faults s"
  "length (backup_log (snd (applyRetentionPolicy s))) = length (backup_log s)"
  by (simp_all add: applyRetentionPolicy_eq)

lemma policy_deleted:
  "deleted (snd (applyRetentionPolicy s)) =
     deleted s @ map (\<lambda>q. the (entry_destination (entry (snd q))))
                    (filter (\<lambda>q. \<not> deletion_fails s q) (policy_candidates (backup_log s)))"
  by (simp add: applyRetentionPolicy_eq sweep_tier_deleted candidates_after_sweep
      policy_candidates_def candidates_def [of Monthly])

lemma policy_log:
  assumes j: "j < length (backup_log s)"
  shows "backup_log (snd (applyRetentionPolicy s)) ! j =
     (if j \<in> fst ` set (filter (\<lambda>q. \<not> deletion_fails s q) (policy_candidates (backup_log s)))
      then (backup_log s ! j)\<lparr>reclaimed := True\<rparr> else backup_log s ! j)"
proof -
  have j': "j < length (backup_log (snd (sweep_tier Daily s)))" using j by simp
  show ?thesis
    using sweep_tier_log [OF j', of Weekly] sweep_tier_log [OF j, of Daily]
    by (auto simp: applyRetentionPolicy_eq candidates_after_sweep policy_candidates_def
        candidates_def [of Monthly])
qed




lemma candidates_Monthly [simp]: "candidates Monthly lg = []"
  by (simp add: candidates_def)

lemma policy_candidates_elem:
  "q \<in> set (policy_candidates lg) \<Longrightarrow>
   \<exists>t. t \<noteq> Monthly \<and> q \<in> set (candidates t lg)"
  by (auto simp: policy_candidates_def)



lemma policy_entries:
  "map entry (backup_log (snd (applyRetentionPolicy s))) = map entry (backup_log s)"
proof -
  have "entry (backup_log (snd (applyRetentionPolicy s)) ! j) = entry (backup_log s ! j)"
    if "j < length (backup_log s)" for j
    using policy_log [OF that] by simp
  then show ?thesis
    by (auto intro!: nth_equalityI)
qed

lemma cleanup_task_eq:
  "cleanup_task s =
     cleanup_resume (fst (applyRetentionPolicy (cleanup_start s)))
       (snd (applyRetentionPolicy (cleanup_start s)))"
  by (simp add: cleanup_task_def case_prod_unfold Let_def)

lemma cleanup_start_frame [simp]:
  "backup_log (cleanup_start s) = backup_log s"
  "undeletable (cleanup_start s) = undeletable s"
  "schedules (cleanup_start s) = schedules s"
  "running (cleanup_start s) = running s"
  "now (cleanup_start s) = now s"
  "deleted (cleanup_start s) = deleted s"
  "write_faults (cleanup_start s) = write_faults s"
  "deletion_fails (cleanup_start s) = deletion_fails s"
  by (simp_all add: cleanup_start_def deletion_fails_def fun_eq_iff split: option.splits)

lemma policy_log_cong:
  assumes "backup_log s1 = backup_log s2" and "undeletable s1 = undeletable s2"
  shows "backup_log (snd (applyRetentionPolicy s1)) = backup_log (snd (applyRetentionPolicy s2))"
proof -
  have df: "deletion_fails s1 = deletion_fails s2"
    using assms by (simp add: deletion_fails_def fun_eq_iff split: option.splits)
  have "backup_log (snd (applyRetentionPolicy s1)) ! j = backup_log (snd (applyRetentionPolicy s2)) ! j"
    if "j < length (backup_log s1)" for j
    using policy_log [of j s1] policy_log [of j s2] that assms df by simp
  then show ?thesis
    using assms by (auto intro!: nth_equalityI)
qed

lemma cleanup_task_facts:
  "fst (cleanup_task s) = Inr ()"
  "backup_log (snd (cleanup_task s)) = backup_log (snd (applyRetentionPolicy s))"
  "schedules (snd (cleanup_task s)) = schedules s"
  "running (snd (cleanup_task s)) = running s"
  "console (snd (cleanup_task s)) =
     console s @
       [(LOG, [Str ''[BACKUP] Running retention policy cleanup...'']),
        (LOG, [Str ''[BACKUP] Retention policy applied. Removed:'',
               Num (length (filter (\<lambda>q. \<not> deletion_fails s q)
                      (policy_candidates (backup_log s))))])]"
proof -
  have r: "fst (applyRetentionPolicy (cleanup_start s)) =
     Resolved
       \<lparr>removed = length (filter (\<lambda>q. \<not> deletion_fails s q) (policy_candidates (backup_log s))),
        failures = length (filter (deletion_fails s) (policy_candidates (backup_log s)))\<rparr>"
    by (simp add: policy_result)
  show "fst (cleanup_task s) = Inr ()"
    by (simp add: cleanup_task_eq r cleanup_resume_def)
  show "backup_log (snd (cleanup_task s)) = backup_log (snd (applyRetentionPolicy s))"
    by (simp add: cleanup_task_eq r cleanup_resume_def policy_log_cong [of "cleanup_start s" s])
  show "schedules (snd (cleanup_task s)) = schedules s"
    by (simp add: cleanup_task_eq r cleanup_resume_def)
  show "running (snd (cleanup_task s)) = running s"
    by (simp add: cleanup_task_eq r cleanup_resume_def)
  show "console (snd (cleanup_task s)) =
     console s @
       [(LOG, [Str ''[BACKUP] Running retention policy cleanup...'']),
        (LOG, [Str ''[BACKUP] Retention policy applied. Removed:'',
               Num (length (filter (\<lambda>q. \<not> deletion_fails s q)
                      (policy_candidates (backup_log s))))])]"
    by (simp add: cleanup_task_eq r cleanup_resume_def) (simp add: cleanup_start_def)
qed

subsection \<open>The event loop, registration and the patterns\<close>

lemma run_replicate_fire:
  "count_list (running (run (replicate n (Fire (Backup t))) s)) t = count_list (running s) t + n"
  by (induction n arbitrary: s) simp_all

lemma initialize_schedules:
  "fst (initializeBackupScheduling validate s) = Inr () \<and>
   schedules (snd (initializeBackupScheduling validate s)) =
     schedules s @ takeWhile (accepted validate) backup_schedules"
  by (cases "validate ''0 2 * * *''"; cases "validate ''0 3 * * 0''";
      cases "validate ''0 4 1 * *''"; cases "validate ''0 5 * * *''")
     (simp_all add: initializeBackupScheduling_def cron_schedule_def initialize_catch_def
        initialize_report_def backup_schedules_def accepted_def)

lemma step_schedules [simp]: "schedules (step e s) = schedules s"
proof (cases e)
  case (Fire j)
  then show ?thesis by (cases j) (simp_all add: cleanup_task_facts)
qed simp_all

lemma run_schedules: "schedules (run es s) = schedules s"
  by (induction es arbitrary: s) simp_all

lemma cron_patterns:
  "cron_matches ''0 2 * * *'' t \<longleftrightarrow> minute t = 0 \<and> hour t = 2"
  "cron_matches ''0 3 * * 0'' t \<longleftrightarrow> minute t = 0 \<and> hour t = 3 \<and> day_of_week t = 0"
  "cron_matches ''0 4 1 * *'' t \<longleftrightarrow> minute t = 0 \<and> hour t = 4 \<and> day_of_month t = 1"
  "cron_matches ''0 5 * * *'' t \<longleftrightarrow> minute t = 0 \<and> hour t = 5"
  by (auto simp: cron_matches_def field_matches_def)

subsection \<open>The sample state\<close>

lemma sample_selected:
  "selected Weekly (backup_log retention_sample) =
     [(6, success_record Weekly 7 ''w7''), (5, success_record Weekly 6 ''w6''),
      (4, success_record Weekly 5 ''w5''), (3, success_record Weekly 4 ''w4''),
      (2, success_record Weekly 3 ''w3''), (1, success_record Weekly 2 ''w2''),
      (0, success_record Weekly 1 ''w1'')]"
  "selected Daily (backup_log retention_sample) = []"
  by (simp_all add: retention_sample_def selected_def eligible_def success_record_def
      process_start_def)

lemma sample_candidates:
  "candidates Weekly (backup_log retention_sample) =
     [(2, success_record Weekly 3 ''w3''), (1, success_record Weekly 2 ''w2''),
      (0, success_record Weekly 1 ''w1'')]"
  "candidates Daily (backup_log retention_sample) = []"
  "policy_candidates (backup_log retention_sample) =
     [(2, success_record Weekly 3 ''w3''), (1, success_record Weekly 2 ''w2''),
      (0, success_record Weekly 1 ''w1'')]"
  by (simp_all add: candidates_def policy_candidates_def sample_selected)

lemma sample_fails:
  "deletion_fails retention_sample (i, success_record t ts d) \<longleftrightarrow> d = ''w2''"
  by (simp add: deletion_fails_def retention_sample_def success_record_def)

subsection \<open>Records and artifacts\<close>















section \<open>The claims\<close>

subsection \<open>C1: runs of one tier overlap\<close>

text \<open>
  C1, as the code has it. The callbacks keep no in-flight flag. Every firing of a tier's
  trigger starts the callback, whatever is running: the run joins the suspended runs and
  the console gets the starting line, never a line about a skip. After \<open>n\<close> firings of a
  tier's trigger with no export settling in between, \<open>n\<close> more runs of the tier are
  executing at once.
\<close>

theorem every_firing_starts_the_callback:
  "running (fire (Backup t) s) = running s @ [t] \<and>
   console (fire (Backup t) s) =
     console s @ [(LOG, [Str (''[BACKUP] Starting '' @ tier_name t @ '' backup...'')])] \<and>
   count_list (running (run (replicate n (Fire (Backup t))) s)) t = count_list (running s) t + n"
  by (simp add: run_replicate_fire) (simp add: backup_start_eq)

theorem every_firing_starts_the_callback_witness:
  "running (fire (Backup Daily) process_start) = [Daily] \<and>
   count_list (running (run (replicate 3 (Fire (Backup Daily))) process_start)) Daily = 3"
  using every_firing_starts_the_callback [of Daily process_start 3]
  by (simp add: process_start_def)

text \<open>
  C1 as stated fails: the Daily trigger fires twice before the first export has settled,
  and two Daily runs are executing at once.
\<close>

theorem overlapping_daily_runs_counterexample:
  "\<not> count_list (running (run [Fire (Backup Daily), Fire (Backup Daily)] process_start)) Daily \<le> 1"
  by (simp add: daily_backup_start_def console_log_def process_start_def)

subsection \<open>C2: one entry per run\<close>

text \<open>
  C2. A run of a tier's callback never appends two entries. When the log write of the run
  succeeds, which is every run but the one the specification treats apart as
  \<^verbatim>\<open>LogWriteError\<close>, the callback returns and has appended exactly one entry: the
  success entry of the tier when the export succeeds, the failed entry of the tier when
  the export fails.
\<close>

theorem backup_task_appends_exactly_one:
  "length (backup_log (snd (backup_task t outcome s))) \<le> length (backup_log s) + 1 \<and>
   (next_write_succeeds s \<longrightarrow>
      fst (backup_task t outcome s) = Inr () \<and>
      length (backup_log (snd (backup_task t outcome s))) = length (backup_log s) + 1 \<and>
      backup_log (snd (backup_task t (Resolved r) s)) =
        backup_log s @ [stamp (success_entry t r) s] \<and>
      backup_log (snd (backup_task t (Rejected e) s)) =
        backup_log s @ [stamp (failed_entry t (message e)) s])"
proof -
  have one: "next_write_succeeds s \<Longrightarrow>
      fst (backup_task t outcome s) = Inr () \<and>
      length (backup_log (snd (backup_task t outcome s))) = length (backup_log s) + 1"
    by (cases outcome)
       (simp_all add: backup_task_def backup_resume_Resolved_ok backup_resume_Rejected
          backup_catch_ok)
  have both: "next_write_succeeds s \<Longrightarrow>
      backup_log (snd (backup_task t (Resolved r) s)) =
        backup_log s @ [stamp (success_entry t r) s] \<and>
      backup_log (snd (backup_task t (Rejected e) s)) =
        backup_log s @ [stamp (failed_entry t (message e)) s]"
    by (simp add: backup_task_def backup_resume_Resolved_ok backup_resume_Rejected
          backup_catch_ok)
  have most: "length (backup_log (snd (backup_task t outcome s))) \<le> length (backup_log s) + 1"
    using backup_resume_log [of t outcome "backup_start t s"]
    by (auto simp: backup_task_def)
  from one both most show ?thesis by blast
qed

theorem backup_task_appends_exactly_one_witness:
  "next_write_succeeds process_start \<and>
   fst (backup_task Daily (Rejected (Error ''disk full'')) process_start) = Inr () \<and>
   length (backup_log (snd (backup_task Daily (Rejected (Error ''disk full'')) process_start)))
     = length (backup_log process_start) + 1 \<and>
   backup_log (snd (backup_task Daily
       (Resolved \<lparr>result_size = 1024, result_destination = ''backups/daily-1''\<rparr>) process_start)) =
     [\<lparr>entry = \<lparr>entry_type = ''daily'', entry_size = Some 1024, entry_status = ''success'',
                entry_destination = Some ''backups/daily-1'', entry_error = None\<rparr>,
       timestamp = 0, reclaimed = False\<rparr>]"
  using backup_task_appends_exactly_one
    [where t = Daily and outcome = "Rejected (Error ''disk full'')" and s = process_start
       and r = "\<lparr>result_size = 1024, result_destination = ''backups/daily-1''\<rparr>"
       and e = "Error ''disk full''"]
  by (simp add: next_write_succeeds_def process_start_def success_entry_def stamp_def)

subsection \<open>C3: a failed export becomes a failed entry\<close>

text \<open>
  C3. In a run whose export raises an error and whose log write succeeds, which is every
  such run but the one the specification treats apart as \<^verbatim>\<open>LogWriteError\<close>, the
  error is caught: the callback returns normally, and the log gains one failed entry of
  the tier, whose error field is the error's message and which has neither size nor
  destination. The registered schedules are the same afterwards, and a later firing of a
  tier's trigger starts its callback as before.
\<close>

theorem export_error_is_caught_and_logged:
  "next_write_succeeds s \<longrightarrow>
      fst (backup_task t (Rejected e) s) = Inr () \<and>
      backup_log (snd (backup_task t (Rejected e) s)) =
        backup_log s @
          [\<lparr>entry = \<lparr>entry_type = tier_name t, entry_size = None, entry_status = ''failed'',
                     entry_destination = None, entry_error = Some (message e)\<rparr>,
            timestamp = now s, reclaimed = False\<rparr>] \<and>
      schedules (snd (backup_task t (Rejected e) s)) = schedules s \<and>
      running (fire (Backup t') (snd (backup_task t (Rejected e) s))) =
        running (snd (backup_task t (Rejected e) s)) @ [t']"
  by (auto simp: backup_task_def backup_resume_Rejected backup_catch_ok
      failed_entry_def stamp_def)

theorem export_error_is_caught_and_logged_witness:
  "next_write_succeeds process_start \<and>
   fst (backup_task Weekly (Rejected (Error ''disk full'')) process_start) = Inr () \<and>
   backup_log (snd (backup_task Weekly (Rejected (Error ''disk full'')) process_start)) =
     [\<lparr>entry = \<lparr>entry_type = ''weekly'', entry_size = None, entry_status = ''failed'',
                entry_destination = None, entry_error = Some ''disk full''\<rparr>,
       timestamp = 0, reclaimed = False\<rparr>] \<and>
   running (fire (Backup Weekly)
     (snd (backup_task Weekly (Rejected (Error ''disk full'')) process_start))) = [Weekly]"
proof -
  have r: "running (snd (backup_task Weekly (Rejected (Error ''disk full'')) process_start)) = []"
    by (simp add: backup_task_def weekly_backup_start_def weekly_backup_resume_def
        weekly_backup_catch_def logBackup_def console_log_def console_error_def
        process_start_def)
  show ?thesis
    using r export_error_is_caught_and_logged
      [where s = process_start and t = Weekly and e = "Error ''disk full''" and t' = Weekly]
    by (simp add: next_write_succeeds_def process_start_def)
qed

subsection \<open>C4: what a sweep keeps and what it deletes\<close>



subsection \<open>C5: the result of a sweep and the summary line\<close>

text \<open>
  C5, as the code has it. A sweep returns the two counts: \<open>removed\<close> is the number of
  candidates whose deletion succeeds and \<open>failures\<close> the number of those whose deletion
  fails, so every candidate is counted once and a failure is counted, not thrown. A
  candidate whose deletion does not fail is reclaimed and deleted wherever it stands among
  the candidates, also after one that failed. The summary line the cleanup callback prints
  holds the removed count and nothing else.
\<close>

theorem sweep_counts_every_candidate:
  "fst (applyRetentionPolicy s) =
     Resolved
       \<lparr>removed = length (filter (\<lambda>q. \<not> deletion_fails s q) (policy_candidates (backup_log s))),
        failures = length (filter (deletion_fails s) (policy_candidates (backup_log s)))\<rparr> \<and>
   (q \<in> set (policy_candidates (backup_log s)) \<and> \<not> deletion_fails s q \<longrightarrow>
        reclaimed (backup_log (snd (applyRetentionPolicy s)) ! fst q) \<and>
        (\<exists>d. entry_destination (entry (snd q)) = Some d \<and>
             d \<in> set (deleted (snd (applyRetentionPolicy s))))) \<and>
   console (snd (cleanup_task s)) =
     console s @
       [(LOG, [Str ''[BACKUP] Running retention policy cleanup...'']),
        (LOG, [Str ''[BACKUP] Retention policy applied. Removed:'',
               Num (length (filter (\<lambda>q. \<not> deletion_fails s q)
                      (policy_candidates (backup_log s))))])] \<and>
   console (snd (cleanup_resume (Resolved r) s)) =
     console s @ [(LOG, [Str ''[BACKUP] Retention policy applied. Removed:'', Num (removed r)])]"
proof -
  have a: "reclaimed (backup_log (snd (applyRetentionPolicy s)) ! fst q) \<and>
        (\<exists>d. entry_destination (entry (snd q)) = Some d \<and>
             d \<in> set (deleted (snd (applyRetentionPolicy s))))"
    if q: "q \<in> set (policy_candidates (backup_log s))" and nf: "\<not> deletion_fails s q"
  proof
    obtain t where "q \<in> set (candidates t (backup_log s))"
      using policy_candidates_elem [OF q] by blast
    then have j: "fst q < length (backup_log s)"
      using candidate_elem by blast
    have "fst q \<in> fst ` set (filter (\<lambda>q. \<not> deletion_fails s q) (policy_candidates (backup_log s)))"
      using q nf by force
    then show "reclaimed (backup_log (snd (applyRetentionPolicy s)) ! fst q)"
      using policy_log [OF j] by simp
    obtain d where d: "entry_destination (entry (snd q)) = Some d"
      using nf by (auto simp: deletion_fails_def split: option.splits)
    have "the (entry_destination (entry (snd q))) \<in>
            set (map (\<lambda>q. the (entry_destination (entry (snd q))))
                  (filter (\<lambda>q. \<not> deletion_fails s q) (policy_candidates (backup_log s))))"
      using q nf by force
    then show "\<exists>d. entry_destination (entry (snd q)) = Some d \<and>
             d \<in> set (deleted (snd (applyRetentionPolicy s)))"
      using d by (simp add: policy_deleted)
  qed
  show ?thesis
    using a by (simp add: policy_result cleanup_task_facts cleanup_resume_def)
qed

theorem sweep_counts_every_candidate_witness:
  "fst (applyRetentionPolicy retention_sample) = Resolved \<lparr>removed = 2, failures = 1\<rparr> \<and>
   (0, success_record Weekly 1 ''w1'') \<in> set (policy_candidates (backup_log retention_sample)) \<and>
   \<not> deletion_fails retention_sample (0, success_record Weekly 1 ''w1'') \<and>
   reclaimed (backup_log (snd (applyRetentionPolicy retention_sample)) ! 0) \<and>
   ''w1'' \<in> set (deleted (snd (applyRetentionPolicy retention_sample)))"
proof -
  note T = sweep_counts_every_candidate [of retention_sample "(0, success_record Weekly 1 ''w1'')"]
  have q: "(0, success_record Weekly 1 ''w1'') \<in> set (policy_candidates (backup_log retention_sample))"
    by (simp add: sample_candidates)
  have R: "fst (applyRetentionPolicy retention_sample) = Resolved \<lparr>removed = 2, failures = 1\<rparr>"
    using T by (simp add: sample_candidates sample_fails)
  have A: "reclaimed (backup_log (snd (applyRetentionPolicy retention_sample)) ! 0) \<and>
        (\<exists>d. entry_destination (entry (success_record Weekly 1 ''w1'')) = Some d \<and>
             d \<in> set (deleted (snd (applyRetentionPolicy retention_sample))))"
    using T q by (simp add: sample_fails)
  have "entry_destination (entry (success_record Weekly 1 ''w1'')) = Some ''w1''"
    by (simp add: success_record_def)
  with A have "''w1'' \<in> set (deleted (snd (applyRetentionPolicy retention_sample)))"
    by auto
  with A R q show ?thesis by (simp add: sample_fails)
qed

text \<open>
  C5 as stated fails: for a sweep that removed 2 artifacts and failed on 1, the summary
  line holds the 2 and does not hold the 1.
\<close>

theorem cleanup_summary_omits_failures_counterexample:
  "console (snd (cleanup_resume (Resolved \<lparr>removed = 2, failures = 1\<rparr>) process_start)) =
     [(LOG, [Str ''[BACKUP] Retention policy applied. Removed:'', Num 2])] \<and>
   Num 1 \<notin> set [Str ''[BACKUP] Retention policy applied. Removed:'', Num 2]"
  by (simp add: cleanup_resume_def console_log_def process_start_def)

subsection \<open>C6: the cleanup callback\<close>

text \<open>
  C6, as the code has it. A firing of the cleanup trigger appends no entry, neither
  before the sweep nor at all: the entries of the log are the same afterwards. The
  callback prints its starting line, runs the retention engine on the log as it stands,
  and prints the count removed. The callback returns normally; a rejected sweep is printed
  as an error and the callback returns normally as well. The registered schedules and the
  log are as they were after a rejected sweep, and the schedules after every run.
\<close>

theorem cleanup_runs_retention_and_appends_nothing:
  "fst (cleanup_task s) = Inr () \<and>
   backup_log (cleanup_start s) = backup_log s \<and>
   map entry (backup_log (snd (cleanup_task s))) = map entry (backup_log s) \<and>
   backup_log (snd (cleanup_task s)) = backup_log (snd (applyRetentionPolicy s)) \<and>
   console (snd (cleanup_task s)) =
     console s @
       [(LOG, [Str ''[BACKUP] Running retention policy cleanup...'']),
        (LOG, [Str ''[BACKUP] Retention policy applied. Removed:'',
               Num (length (filter (\<lambda>q. \<not> deletion_fails s q)
                      (policy_candidates (backup_log s))))])] \<and>
   schedules (snd (cleanup_task s)) = schedules s \<and>
   cleanup_resume (Rejected e) s =
     (Inr (), console_error [Str ''[BACKUP] Retention policy failed:'', Err e] s) \<and>
   schedules (snd (cleanup_resume (Rejected e) s)) = schedules s \<and>
   backup_log (snd (cleanup_resume (Rejected e) s)) = backup_log s"
  by (simp add: cleanup_task_facts policy_entries) (simp add: cleanup_resume_def)

theorem cleanup_runs_retention_and_appends_nothing_witness:
  "fst (cleanup_task retention_sample) = Inr () \<and>
   length (backup_log (snd (cleanup_task retention_sample))) = 8 \<and>
   console (snd (cleanup_task retention_sample)) =
     [(LOG, [Str ''[BACKUP] Running retention policy cleanup...'']),
      (LOG, [Str ''[BACKUP] Retention policy applied. Removed:'', Num 2])]"
proof -
  note T = cleanup_runs_retention_and_appends_nothing [of retention_sample "Error ''timeout''"]
  have "length (map entry (backup_log (snd (cleanup_task retention_sample)))) =
        length (map entry (backup_log retention_sample))"
    using T by simp
  then have "length (backup_log (snd (cleanup_task retention_sample))) = 8"
    by (simp add: retention_sample_def)
  moreover have "console retention_sample = []"
    by (simp add: retention_sample_def process_start_def)
  ultimately show ?thesis
    using T by (simp add: sample_candidates sample_fails)
qed

text \<open>
  C6 as stated fails: a firing of the cleanup trigger does not make the log one entry
  longer, neither up to the sweep nor over the whole run.
\<close>

theorem cleanup_appends_no_entry_counterexample:
  "length (backup_log (cleanup_start process_start)) \<noteq> length (backup_log process_start) + 1 \<and>
   length (backup_log (snd (cleanup_task process_start))) \<noteq>
     length (backup_log process_start) + 1"
  by (simp add: cleanup_task_facts(2))

subsection \<open>C7: a failing log write\<close>

text \<open>
  C7, as the code has it. When the log write of the success branch throws, the
  \<^verbatim>\<open>catch\<close> block of the same callback takes the error: it prints the run as failed and
  writes a failed entry with the write error's message to the same log. If that second
  write succeeds the callback returns normally and the log holds the failed entry; if it
  throws too, the callback ends with the second error and the log is unchanged. When the
  export itself was rejected and the write of the failed entry throws, the callback ends
  with the write's error and the log is unchanged.
\<close>

theorem log_write_failure_is_self_logged:
  assumes "write_faults s = Some m # fs"
  shows "console (snd (backup_task t (Resolved r) s)) =
           console s @
             [(LOG, [Str (''[BACKUP] Starting '' @ tier_name t @ '' backup...'')]),
              (LOG, [Str (''[BACKUP] '' @ tier_label t @ '' backup completed successfully'')]),
              (ERROR, [Str (''[BACKUP] '' @ tier_label t @ '' backup failed:''), Err (Error m)])] \<and>
         (case fs of
            Some m' # _ \<Rightarrow>
              fst (backup_task t (Resolved r) s) = Inl (Error m') \<and>
              backup_log (snd (backup_task t (Resolved r) s)) = backup_log s
          | _ \<Rightarrow>
              fst (backup_task t (Resolved r) s) = Inr () \<and>
              backup_log (snd (backup_task t (Resolved r) s)) =
                backup_log s @ [stamp (failed_entry t m) s]) \<and>
         fst (backup_task t (Rejected e) s) = Inl (Error m) \<and>
         backup_log (snd (backup_task t (Rejected e) s)) = backup_log s"
proof -
  define s1 where "s1 =
    (console_log [Str (''[BACKUP] '' @ tier_label t @ '' backup completed successfully'')]
                ((backup_start t s)\<lparr>running := remove1 t (running (backup_start t s))\<rparr>))
              \<lparr>write_faults := fs\<rparr>"
  have f: "write_faults (backup_start t s) = Some m # fs"
    using assms by simp
  have r: "backup_task t (Resolved r) s = backup_catch t (Error m) s1"
    unfolding backup_task_def s1_def by (rule backup_resume_Resolved_fault [OF f])
  have c1: "console s1 = console s @
             [(LOG, [Str (''[BACKUP] Starting '' @ tier_name t @ '' backup...'')]),
              (LOG, [Str (''[BACKUP] '' @ tier_label t @ '' backup completed successfully'')])]"
    by (simp add: s1_def backup_start_eq)
  have l1: "backup_log s1 = backup_log s" and w1: "write_faults s1 = fs"
    and st: "stamp (failed_entry t m) s1 = stamp (failed_entry t m) s"
    by (simp_all add: s1_def stamp_def)
  have A: "console (snd (backup_task t (Resolved r) s)) =
           console s @
             [(LOG, [Str (''[BACKUP] Starting '' @ tier_name t @ '' backup...'')]),
              (LOG, [Str (''[BACKUP] '' @ tier_label t @ '' backup completed successfully'')]),
              (ERROR, [Str (''[BACKUP] '' @ tier_label t @ '' backup failed:''), Err (Error m)])]"
    by (simp add: r backup_catch_console c1)
  have B: "(case fs of
            Some m' # _ \<Rightarrow>
              fst (backup_task t (Resolved r) s) = Inl (Error m') \<and>
              backup_log (snd (backup_task t (Resolved r) s)) = backup_log s
          | _ \<Rightarrow>
              fst (backup_task t (Resolved r) s) = Inr () \<and>
              backup_log (snd (backup_task t (Resolved r) s)) =
                backup_log s @ [stamp (failed_entry t m) s])"
  proof (cases "next_write_succeeds s1")
    case True
    have "fst (backup_catch t (Error m) s1) = Inr ()"
      and "backup_log (snd (backup_catch t (Error m) s1)) =
             backup_log s @ [stamp (failed_entry t m) s]"
      using backup_catch_ok [OF True, of t "Error m"] l1 st by simp_all
    moreover have "case fs of Some m' # _ \<Rightarrow> False | _ \<Rightarrow> True"
      using True w1 by (auto simp: next_write_succeeds_def split: list.splits option.splits)
    ultimately show ?thesis
      unfolding r by (auto split: list.splits option.splits)
  next
    case False
    then obtain m' fs' where f': "write_faults s1 = Some m' # fs'"
      using next_write_cases [of s1] by auto
    then have "fs = Some m' # fs'" using w1 by simp
    moreover have "fst (backup_catch t (Error m) s1) = Inl (Error m')"
      and "backup_log (snd (backup_catch t (Error m) s1)) = backup_log s"
      using backup_catch_fault(1,2) [OF f', of t "Error m"] l1 by simp_all
    ultimately show ?thesis
      unfolding r by simp
  qed
  have C: "fst (backup_task t (Rejected e) s) = Inl (Error m) \<and>
         backup_log (snd (backup_task t (Rejected e) s)) = backup_log s"
    using assms
    by (simp add: backup_task_def backup_resume_Rejected backup_catch_fault)
  from A B C show ?thesis by blast
qed

theorem log_write_failure_is_self_logged_witness:
  "write_faults (process_start\<lparr>write_faults := [Some ''disk full'', Some ''disk still full'']\<rparr>) =
     Some ''disk full'' # [Some ''disk still full''] \<and>
   fst (backup_task Weekly
          (Resolved \<lparr>result_size = 512, result_destination = ''backups/weekly-1''\<rparr>)
          (process_start\<lparr>write_faults := [Some ''disk full'', Some ''disk still full'']\<rparr>)) =
     Inl (Error ''disk still full'') \<and>
   fst (backup_task Weekly (Rejected (Error ''timeout''))
          (process_start\<lparr>write_faults := [Some ''disk full'', Some ''disk still full'']\<rparr>)) =
     Inl (Error ''disk full'')"
  using log_write_failure_is_self_logged
    [where s = "process_start\<lparr>write_faults := [Some ''disk full'', Some ''disk still full'']\<rparr>"
       and m = "''disk full''" and fs = "[Some ''disk still full'']" and t = Weekly
       and r = "\<lparr>result_size = 512, result_destination = ''backups/weekly-1''\<rparr>"
       and e = "Error ''timeout''"]
  by (simp add: process_start_def)

text \<open>
  C7 as stated fails: the export succeeds and the write of the success entry throws; the
  callback returns normally, nothing has left it, and the write's failure is in the log
  itself as a failed entry.
\<close>

theorem log_write_failure_counterexample:
  "fst (backup_task Daily
          (Resolved \<lparr>result_size = 1024, result_destination = ''backups/daily-1''\<rparr>)
          (process_start\<lparr>write_faults := [Some ''disk full'']\<rparr>)) = Inr () \<and>
   map entry (backup_log (snd (backup_task Daily
          (Resolved \<lparr>result_size = 1024, result_destination = ''backups/daily-1''\<rparr>)
          (process_start\<lparr>write_faults := [Some ''disk full'']\<rparr>)))) =
     [\<lparr>entry_type = ''daily'', entry_size = None, entry_status = ''failed'',
       entry_destination = None, entry_error = Some ''disk full''\<rparr>]"
  by (simp add: backup_task_def daily_backup_start_def daily_backup_resume_def
      daily_backup_catch_def logBackup_def console_log_def console_error_def process_start_def
      stamp_def)

subsection \<open>C9: the four schedules\<close>

text \<open>
  C9. When the library accepts the four patterns, \<^verbatim>\<open>initializeBackupScheduling\<close>
  registers exactly four schedules, in this order: the daily backup, which fires at minute
  0 of hour 2; the weekly backup, at minute 0 of hour 3 on day 0 of the week, Sunday; the
  monthly backup, at minute 0 of hour 4 on day 1 of the month; the cleanup, at minute 0 of
  hour 5; each in the time zone UTC. No event of the running process changes the
  registered schedules.
\<close>

theorem four_fixed_schedules:
  assumes "validate ''0 2 * * *'' = None" and "validate ''0 3 * * 0'' = None"
    and "validate ''0 4 1 * *'' = None" and "validate ''0 5 * * *'' = None"
  shows "schedules (snd (initializeBackupScheduling validate s)) =
           schedules s @
             [\<lparr>cron_expression = ''0 2 * * *'', task = Backup Daily, timezone = ''UTC''\<rparr>,
              \<lparr>cron_expression = ''0 3 * * 0'', task = Backup Weekly, timezone = ''UTC''\<rparr>,
              \<lparr>cron_expression = ''0 4 1 * *'', task = Backup Monthly, timezone = ''UTC''\<rparr>,
              \<lparr>cron_expression = ''0 5 * * *'', task = Cleanup, timezone = ''UTC''\<rparr>] \<and>
         (cron_matches ''0 2 * * *'' t \<longleftrightarrow> minute t = 0 \<and> hour t = 2) \<and>
         (cron_matches ''0 3 * * 0'' t \<longleftrightarrow> minute t = 0 \<and> hour t = 3 \<and> day_of_week t = 0) \<and>
         (cron_matches ''0 4 1 * *'' t \<longleftrightarrow> minute t = 0 \<and> hour t = 4 \<and> day_of_month t = 1) \<and>
         (cron_matches ''0 5 * * *'' t \<longleftrightarrow> minute t = 0 \<and> hour t = 5) \<and>
         schedules (run es (snd (initializeBackupScheduling validate s))) =
           schedules (snd (initializeBackupScheduling validate s))"
  using assms
  by (simp add: initialize_schedules backup_schedules_def accepted_def cron_patterns
      run_schedules)

theorem four_fixed_schedules_witness:
  "accepting ''0 2 * * *'' = None \<and> accepting ''0 3 * * 0'' = None \<and>
   accepting ''0 4 1 * *'' = None \<and> accepting ''0 5 * * *'' = None \<and>
   schedules (snd (initializeBackupScheduling accepting process_start)) =
     [\<lparr>cron_expression = ''0 2 * * *'', task = Backup Daily, timezone = ''UTC''\<rparr>,
      \<lparr>cron_expression = ''0 3 * * 0'', task = Backup Weekly, timezone = ''UTC''\<rparr>,
      \<lparr>cron_expression = ''0 4 1 * *'', task = Backup Monthly, timezone = ''UTC''\<rparr>,
      \<lparr>cron_expression = ''0 5 * * *'', task = Cleanup, timezone = ''UTC''\<rparr>] \<and>
   cron_matches ''0 3 * * 0''
     \<lparr>minute = 0, hour = 3, day_of_month = 8, month = 11, day_of_week = 0\<rparr> \<and>
   length (schedules (run [Fire (Backup Daily), Tick, Fire Cleanup,
                            Settle Daily (Rejected (Error ''disk full''))]
             (snd (initializeBackupScheduling accepting process_start)))) = 4"
  using four_fixed_schedules
    [where validate = accepting and s = process_start
       and t = "\<lparr>minute = 0, hour = 3, day_of_month = 8, month = 11, day_of_week = 0\<rparr>"
       and es = "[Fire (Backup Daily), Tick, Fire Cleanup,
                  Settle Daily (Rejected (Error ''disk full''))]"]
  by (simp add: process_start_def accepting_def)

subsection \<open>C10: an entry carries the tier of its trigger\<close>

text \<open>
  C10. The three tiers write the types \<^verbatim>\<open>daily\<close>, \<^verbatim>\<open>weekly\<close> and \<^verbatim>\<open>monthly\<close>. Whatever
  a callback of tier \<open>t\<close> adds to the log, resumed in any state or run in one piece, on
  any outcome of the export and of the log writes, carries the type of \<open>t\<close>. When the
  coming log write succeeds, a resolved export adds the success entry of \<open>t\<close> and a
  rejected export the failed entry of \<open>t\<close>, and both carry the type of \<open>t\<close>. The
  cleanup callback leaves the entries of the log as they are.
\<close>

theorem entry_type_matches_trigger:
  "tier_name Daily = ''daily'' \<and> tier_name Weekly = ''weekly'' \<and> tier_name Monthly = ''monthly'' \<and>
   (\<exists>new. backup_log (snd (backup_resume t outcome s)) = backup_log s @ new \<and>
          (\<forall>r \<in> set new. entry_type (entry r) = tier_name t)) \<and>
   (\<exists>new. backup_log (snd (backup_task t outcome s)) = backup_log s @ new \<and>
          (\<forall>r \<in> set new. entry_type (entry r) = tier_name t)) \<and>
   (next_write_succeeds s \<longrightarrow>
      backup_log (snd (backup_task t (Resolved res) s)) =
        backup_log s @ [stamp (success_entry t res) s] \<and>
      backup_log (snd (backup_task t (Rejected e) s)) =
        backup_log s @ [stamp (failed_entry t (message e)) s]) \<and>
   entry_type (success_entry t res) = tier_name t \<and>
   entry_type (failed_entry t (message e)) = tier_name t \<and>
   map entry (backup_log (snd (cleanup_task s))) = map entry (backup_log s)"
proof -
  have r: "\<exists>new. backup_log (snd (backup_resume t outcome s')) = backup_log s' @ new \<and>
          (\<forall>r \<in> set new. entry_type (entry r) = tier_name t)" for s'
    using backup_resume_log [of t outcome s']
    by (elim disjE conjE exE) (simp_all add: stamp_def)
  have "\<exists>new. backup_log (snd (backup_task t outcome s)) = backup_log s @ new \<and>
          (\<forall>r \<in> set new. entry_type (entry r) = tier_name t)"
    using r [of "backup_start t s"] by (simp add: backup_task_def)
  then show ?thesis
    using r [of s]
    by (simp add: cleanup_task_facts policy_entries backup_task_def backup_resume_Resolved_ok
        backup_resume_Rejected backup_catch_ok success_entry_def failed_entry_def)
qed

theorem entry_type_matches_trigger_witness:
  "next_write_succeeds process_start \<and>
   backup_log (snd (backup_task Monthly
       (Resolved \<lparr>result_size = 2048, result_destination = ''backups/monthly-1''\<rparr>) process_start)) =
     [\<lparr>entry = \<lparr>entry_type = ''monthly'', entry_size = Some 2048, entry_status = ''success'',
                entry_destination = Some ''backups/monthly-1'', entry_error = None\<rparr>,
       timestamp = 0, reclaimed = False\<rparr>] \<and>
   backup_log (snd (backup_task Monthly (Rejected (Error ''disk full'')) process_start)) =
     [\<lparr>entry = \<lparr>entry_type = ''monthly'', entry_size = None, entry_status = ''failed'',
                entry_destination = None, entry_error = Some ''disk full''\<rparr>,
       timestamp = 0, reclaimed = False\<rparr>]"
  using entry_type_matches_trigger
    [where t = Monthly and s = process_start
       and res = "\<lparr>result_size = 2048, result_destination = ''backups/monthly-1''\<rparr>"
       and e = "Error ''disk full''"]
  by (simp add: next_write_succeeds_def process_start_def success_entry_def failed_entry_def
      stamp_def)

end
